theory Spec2Isabelle
  imports Main "HOL-Library.AList"
begin

section \<open>Syntax trees\<close>

text \<open>
  The part of \<^verbatim>\<open>go/ast\<close> that the package \<^verbatim>\<open>goroot\<close> inspects. A \<^verbatim>\<open>token.Pos\<close> is an
  integer, \<^verbatim>\<open>token.NoPos\<close> is 0. Function bodies are never inspected and are kept as
  opaque source text.
\<close>

type_synonym Pos = int

datatype ident = Ident (NamePos: Pos) (Name: string)

text \<open>\<^verbatim>\<open>ast.NewIdent(name)\<close>: an identifier without position.\<close>

definition NewIdent :: "string \<Rightarrow> ident" where
  "NewIdent name = Ident 0 name"

datatype expr =
    IdentExpr ident
  | BasicLit string
  | StarExpr expr
  | ParenExpr expr
  | SelectorExpr expr ident
  | IndexExpr expr expr
  | CallExpr expr "expr list"

datatype field = FieldNode (FieldNames: "ident list") (FieldType: expr)

datatype funcType = FuncType (FuncPos: Pos) (Params: "field list") (Results: "field list")

datatype token = IMPORT | CONST' | TYPE' | VAR | FUNC

datatype block = BlockStmt string

record importSpec =
  ImportName :: "ident option"
  Path :: string

record valueSpec =
  Names :: "ident list"
  ValueType :: "expr option"
  Values :: "expr list"

record typeSpec =
  TypeName :: ident
  TypeExpr :: expr

datatype spec = ImportSpec importSpec | ValueSpec valueSpec | TypeSpec typeSpec

record genDecl =
  TokPos :: Pos
  Tok :: token
  Specs :: "spec list"

record funcDecl =
  Recv :: "field list option"
  FuncName :: ident
  FuncTyp :: funcType
  Body :: "block option"

datatype decl = GenDecl genDecl | FuncDecl funcDecl

record comment =
  Slash :: Pos
  Text :: string

type_synonym commentGroup = "comment list"

text \<open>
  \<^verbatim>\<open>ast.File\<close>. \<open>PackageName\<close> is the field \<^verbatim>\<open>Name\<close>. The field \<^verbatim>\<open>Imports\<close> holds
  pointers to the import specs of the import declarations in \<open>Decls\<close> (the parser enters
  every import spec it parses there), so it is the function \<open>Imports\<close> below and a write
  through it is a write to \<open>Decls\<close>.
\<close>

record File =
  PackageName :: ident
  Decls :: "decl list"
  Comments :: "commentGroup list"

text \<open>The nodes handed to \<^verbatim>\<open>key\<close>, which switches on the dynamic type of an \<^verbatim>\<open>ast.Node\<close>.\<close>

datatype node =
    TypeSpecNode typeSpec
  | FuncDeclNode funcDecl
  | IdentNode ident
  | ValueSpecNode valueSpec
  | ImportSpecNode importSpec
  | GenDeclNode genDecl

text \<open>Positions of nodes, as \<^verbatim>\<open>Pos()\<close> gives them.\<close>

definition FuncDecl_Pos :: "funcDecl \<Rightarrow> Pos" where
  "FuncDecl_Pos d = FuncPos (FuncTyp d)"

definition TypeSpec_Pos :: "typeSpec \<Rightarrow> Pos" where
  "TypeSpec_Pos s = NamePos (TypeName s)"

definition GenDecl_Pos :: "genDecl \<Rightarrow> Pos" where
  "GenDecl_Pos d = TokPos d"

section \<open>Panics\<close>

datatype panic =
    InterfaceConversion
  | UnsupportedNode

section \<open>Symbol keys\<close>

text \<open>
  \<^verbatim>\<open>SymbolFilter.funcName\<close> and \<^verbatim>\<open>augmenter.funcName\<close> have the same body. The type
  assertion \<^verbatim>\<open>recv.(*ast.Ident)\<close> has no \<^verbatim>\<open>ok\<close> result: it panics on any other node.
\<close>

definition funcName :: "funcDecl \<Rightarrow> panic + string" where
  "funcName d =
     (case Recv d of
        None \<Rightarrow> Inr (Name (FuncName d))
      | Some [] \<Rightarrow> Inr (Name (FuncName d))
      | Some (f # _) \<Rightarrow>
          (let recv = (case FieldType f of StarExpr x \<Rightarrow> x | t \<Rightarrow> t) in
           case recv of
             IdentExpr i \<Rightarrow> Inr (Name i @ ''.'' @ Name (FuncName d))
           | _ \<Rightarrow> Inl InterfaceConversion))"

definition key :: "File \<Rightarrow> node \<Rightarrow> panic + string" where
  "key f n =
     (case n of
        TypeSpecNode s \<Rightarrow> Inr (Name (PackageName f) @ ''.'' @ Name (TypeName s))
      | FuncDeclNode d \<Rightarrow>
          (case funcName d of
             Inl p \<Rightarrow> Inl p
           | Inr fn \<Rightarrow> Inr (Name (PackageName f) @ ''.'' @ fn))
      | IdentNode i \<Rightarrow> Inr (Name (PackageName f) @ ''.'' @ Name i)
      | _ \<Rightarrow> Inl UnsupportedNode)"

section \<open>The symbol filter\<close>

record position =
  Filename :: string
  Offset :: int
  Line :: int
  Column :: int

text \<open>
  A \<^verbatim>\<open>token.FileSet\<close> is used only through \<^verbatim>\<open>FileSet.Position\<close>, so it is that function.
  \<^verbatim>\<open>WillPrune\<close> is a Go map from symbol keys to positions: an association list read with
  \<open>map_of\<close> and written with \<open>AList.update\<close>. A nil map and an empty map both have length 0.
\<close>

type_synonym FileSet = "Pos \<Rightarrow> position"

record SymbolFilter =
  FileSet :: "FileSet option"
  WillPrune :: "(string \<times> Pos) list"

definition IsEmpty :: "SymbolFilter \<Rightarrow> bool" where
  "IsEmpty sf = (length (WillPrune sf) = 0)"

subsection \<open>Collect\<close>

text \<open>
  \<^verbatim>\<open>astutil.Apply(f, collectName, nil)\<close> calls \<^verbatim>\<open>collectName\<close> on the file, then on each
  declaration in order, and below a declaration only where the callback returned true:
  on the specs of a \<^verbatim>\<open>GenDecl\<close> whose token is not \<^verbatim>\<open>IMPORT\<close>.
\<close>

fun collectNames :: "File \<Rightarrow> ident list \<Rightarrow> (string \<times> Pos) list \<Rightarrow> panic + (string \<times> Pos) list" where
  "collectNames f [] t = Inr t"
| "collectNames f (name # names) t =
     (case key f (IdentNode name) of
        Inl p \<Rightarrow> Inl p
      | Inr k \<Rightarrow> collectNames f names (AList.update k (NamePos name) t))"

fun collectSpec :: "File \<Rightarrow> spec \<Rightarrow> (string \<times> Pos) list \<Rightarrow> panic + (string \<times> Pos) list" where
  "collectSpec f (ValueSpec s) t = collectNames f (Names s) t"
| "collectSpec f (TypeSpec s) t =
     (case key f (TypeSpecNode s) of
        Inl p \<Rightarrow> Inl p
      | Inr k \<Rightarrow> Inr (AList.update k (TypeSpec_Pos s) t))"
| "collectSpec f (ImportSpec s) t = Inr t"

fun collectSpecs :: "File \<Rightarrow> spec list \<Rightarrow> (string \<times> Pos) list \<Rightarrow> panic + (string \<times> Pos) list" where
  "collectSpecs f [] t = Inr t"
| "collectSpecs f (s # ss) t =
     (case collectSpec f s t of
        Inl p \<Rightarrow> Inl p
      | Inr t' \<Rightarrow> collectSpecs f ss t')"

fun collectDecl :: "File \<Rightarrow> decl \<Rightarrow> (string \<times> Pos) list \<Rightarrow> panic + (string \<times> Pos) list" where
  "collectDecl f (GenDecl d) t =
     (if Tok d \<noteq> IMPORT then collectSpecs f (Specs d) t else Inr t)"
| "collectDecl f (FuncDecl d) t =
     (case key f (FuncDeclNode d) of
        Inl p \<Rightarrow> Inl p
      | Inr k \<Rightarrow> Inr (AList.update k (FuncDecl_Pos d) t))"

fun collectDecls :: "File \<Rightarrow> decl list \<Rightarrow> (string \<times> Pos) list \<Rightarrow> panic + (string \<times> Pos) list" where
  "collectDecls f [] t = Inr t"
| "collectDecls f (d # ds) t =
     (case collectDecl f d t of
        Inl p \<Rightarrow> Inl p
      | Inr t' \<Rightarrow> collectDecls f ds t')"

text \<open>The file is not modified; the result is the filter with its table and \<^verbatim>\<open>false\<close>.\<close>

definition Collect' :: "SymbolFilter \<Rightarrow> File \<Rightarrow> panic + (SymbolFilter \<times> bool)" where
  "Collect' sf f =
     (case collectDecls f (Decls f) (WillPrune sf) of
        Inl p \<Rightarrow> Inl p
      | Inr t \<Rightarrow> Inr (sf\<lparr>WillPrune := t\<rparr>, False))"

section \<open>Rendering of nodes\<close>

text \<open>
  \<^verbatim>\<open>format.Node(buf, emptyFSet, n)\<close> on the nodes that \<^verbatim>\<open>placeholder\<close> receives. With the
  empty file set no position resolves to a line, so the printer breaks no line inside a
  header: a function declaration is its receiver, name and signature, a single-spec
  \<^verbatim>\<open>GenDecl\<close> without parentheses is its token followed by the spec.
\<close>

fun joinStrings :: "string \<Rightarrow> string list \<Rightarrow> string" where
  "joinStrings sep [] = []"
| "joinStrings sep [x] = x"
| "joinStrings sep (x # y # ys) = x @ sep @ joinStrings sep (y # ys)"

fun exprString :: "expr \<Rightarrow> string" where
  "exprString (IdentExpr i) = Name i"
| "exprString (BasicLit v) = v"
| "exprString (StarExpr x) = ''*'' @ exprString x"
| "exprString (ParenExpr x) = ''('' @ exprString x @ '')''"
| "exprString (SelectorExpr x sel) = exprString x @ ''.'' @ Name sel"
| "exprString (IndexExpr x i) = exprString x @ ''['' @ exprString i @ '']''"
| "exprString (CallExpr fn args) =
     exprString fn @ ''('' @ joinStrings '', '' (map exprString args) @ '')''"

definition fieldString :: "field \<Rightarrow> string" where
  "fieldString f =
     (if FieldNames f = [] then exprString (FieldType f)
      else joinStrings '', '' (map Name (FieldNames f)) @ '' '' @ exprString (FieldType f))"

definition parametersString :: "field list \<Rightarrow> string" where
  "parametersString flds = ''('' @ joinStrings '', '' (map fieldString flds) @ '')''"

text \<open>\<^verbatim>\<open>FieldList.NumFields\<close>: an anonymous field counts once.\<close>

definition NumFields :: "field list \<Rightarrow> nat" where
  "NumFields flds = sum_list (map (\<lambda>f. max 1 (length (FieldNames f))) flds)"

definition signatureString :: "funcType \<Rightarrow> string" where
  "signatureString t =
     parametersString (Params t) @
     (if NumFields (Results t) = 0 then []
      else if NumFields (Results t) = 1 \<and> FieldNames (hd (Results t)) = []
        then '' '' @ exprString (FieldType (hd (Results t)))
      else '' '' @ parametersString (Results t))"

definition tokenString :: "token \<Rightarrow> string" where
  "tokenString t =
     (case t of IMPORT \<Rightarrow> ''import'' | CONST' \<Rightarrow> ''const'' | TYPE' \<Rightarrow> ''type''
      | VAR \<Rightarrow> ''var'' | FUNC \<Rightarrow> ''func'')"

definition specString :: "spec \<Rightarrow> string" where
  "specString s =
     (case s of
        ImportSpec i \<Rightarrow>
          (case ImportName i of None \<Rightarrow> [] | Some n \<Rightarrow> Name n @ '' '') @ Path i
      | ValueSpec v \<Rightarrow>
          joinStrings '', '' (map Name (Names v)) @
          (case ValueType v of None \<Rightarrow> [] | Some t \<Rightarrow> '' '' @ exprString t) @
          (if Values v = [] then [] else '' = '' @ joinStrings '', '' (map exprString (Values v)))
      | TypeSpec t \<Rightarrow> Name (TypeName t) @ '' '' @ exprString (TypeExpr t))"

definition newline :: char where
  "newline = CHR 0x0A"

definition formatNode :: "node \<Rightarrow> string" where
  "formatNode n =
     (case n of
        FuncDeclNode d \<Rightarrow>
          ''func '' @
          (case Recv d of None \<Rightarrow> [] | Some r \<Rightarrow> parametersString r @ '' '') @
          Name (FuncName d) @ signatureString (FuncTyp d) @
          (case Body d of None \<Rightarrow> [] | Some (BlockStmt b) \<Rightarrow> '' '' @ b)
      | GenDeclNode d \<Rightarrow>
          (case Specs d of
             [s] \<Rightarrow> tokenString (Tok d) @ '' '' @ specString s
           | ss \<Rightarrow> tokenString (Tok d) @ '' ('' @
               concat (map (\<lambda>s. newline # CHR 0x09 # specString s) ss) @
               (if ss = [] then [] else [newline]) @ '')'')
      | TypeSpecNode s \<Rightarrow> specString (TypeSpec s)
      | ValueSpecNode s \<Rightarrow> specString (ValueSpec s)
      | ImportSpecNode s \<Rightarrow> specString (ImportSpec s)
      | IdentNode i \<Rightarrow> Name i)"

section \<open>Positions\<close>

fun digits :: "nat \<Rightarrow> string" where
  "digits n =
     (if n < 10 then [''0123456789'' ! n]
      else digits (n div 10) @ [''0123456789'' ! (n mod 10)])"

text \<open>\<^verbatim>\<open>strconv.Itoa\<close>, also what \<^verbatim>\<open>%d\<close> prints.\<close>

definition Itoa :: "int \<Rightarrow> string" where
  "Itoa i = (if i < 0 then ''-'' @ digits (nat (- i)) else digits (nat i))"

definition IsValid :: "position \<Rightarrow> bool" where
  "IsValid pos = (Line pos > 0)"

text \<open>\<^verbatim>\<open>token.Position.String\<close>, which \<^verbatim>\<open>%s\<close> calls.\<close>

definition position_String :: "position \<Rightarrow> string" where
  "position_String pos =
     (let s = Filename pos;
          s = (if IsValid pos
               then (if s \<noteq> [] then s @ '':'' else s) @ Itoa (Line pos) @
                    (if Column pos \<noteq> 0 then '':'' @ Itoa (Column pos) else [])
               else s)
      in if s = [] then ''-'' else s)"

definition zeroPosition :: position where
  "zeroPosition = \<lparr>Filename = [], Offset = 0, Line = 0, Column = 0\<rparr>"

text \<open>\<^verbatim>\<open>SymbolFilter.position\<close>.\<close>

definition position :: "SymbolFilter \<Rightarrow> Pos \<Rightarrow> position" where
  "position sf pos =
     (case FileSet sf of
        None \<Rightarrow> zeroPosition
      | Some fset \<Rightarrow> fset pos)"

section \<open>Placeholder comments\<close>

text \<open>The UTF-8 bytes of the dash U+2014 in the format string of \<^verbatim>\<open>SymbolFilter.placeholder\<close>.\<close>

definition emDash :: string where
  "emDash = [CHR 0xE2, CHR 0x80, CHR 0x94]"

text \<open>\<^verbatim>\<open>strings.ReplaceAll(s, "\n", "\n// ")\<close>.\<close>

definition commentOutLines :: "string \<Rightarrow> string" where
  "commentOutLines s = concat (map (\<lambda>c. if c = newline then newline # ''// '' else [c]) s)"

text \<open>
  \<^verbatim>\<open>SymbolFilter.placeholder\<close>. \<^verbatim>\<open>format.Node\<close> writes into a \<^verbatim>\<open>strings.Builder\<close> and
  supports every node kind of this model, so the panic on its error is not reached.
\<close>

definition placeholder :: "SymbolFilter \<Rightarrow> node \<Rightarrow> Pos \<Rightarrow> Pos \<Rightarrow> commentGroup" where
  "placeholder sf n origPos replPos =
     (let str = commentOutLines (formatNode n) in
      [\<lparr>Slash = origPos,
        Text = ''// '' @ str @ '' '' @ emDash @ '' GopherJS replacement at '' @
               position_String (position sf replPos)\<rparr>])"

text \<open>
  \<^verbatim>\<open>augmenter.placeholder\<close>. Its format string holds, between the name and the marker, the
  eight bytes below where the other implementation has the dash.
\<close>

definition augmenterSeparator :: string where
  "augmenterSeparator =
     [CHR 0xC3, CHR 0xA2, CHR 0xE2, CHR 0x82, CHR 0xAC, CHR 0xE2, CHR 0x80, CHR 0x9D]"

definition augmenter_placeholder :: "FileSet \<Rightarrow> token \<Rightarrow> string \<Rightarrow> Pos \<Rightarrow> Pos \<Rightarrow> commentGroup" where
  "augmenter_placeholder fset tok name origPos replPos =
     (let str = ''// '' @ tokenString tok @ '' '' @ name @ '' '' @ augmenterSeparator @
                '' GopherJS replacement at '' @ position_String (fset replPos) in
      [\<lparr>Slash = origPos, Text = str\<rparr>])"

section \<open>Prune\<close>

text \<open>
  The two closures of \<^verbatim>\<open>Prune\<close> write \<^verbatim>\<open>f.Comments\<close> and the local \<^verbatim>\<open>pruned\<close>; the walk
  passes both along.
\<close>

record pruneState =
  comments :: "commentGroup list"
  pruned :: bool

definition abbreviated :: expr where
  "abbreviated = IdentExpr (NewIdent ''<abbreviated>'')"

text \<open>
  The three calls of \<^verbatim>\<open>placeholder\<close> in \<^verbatim>\<open>Prune\<close>, each with the node it builds: for a
  function the declaration without its body, for a name of a \<^verbatim>\<open>ValueSpec\<close> and for a
  \<^verbatim>\<open>TypeSpec\<close> a one-spec declaration whose type is the identifier \<^verbatim>\<open><abbreviated>\<close>.
\<close>

definition funcPlaceholder :: "SymbolFilter \<Rightarrow> funcDecl \<Rightarrow> Pos \<Rightarrow> commentGroup" where
  "funcPlaceholder sf node pos =
     placeholder sf
       (FuncDeclNode \<lparr>Recv = Recv node, FuncName = FuncName node, FuncTyp = FuncTyp node,
                       Body = None\<rparr>)
       (FuncDecl_Pos node) pos"

definition valuePlaceholder :: "SymbolFilter \<Rightarrow> genDecl \<Rightarrow> ident \<Rightarrow> Pos \<Rightarrow> commentGroup" where
  "valuePlaceholder sf parent name pos =
     placeholder sf
       (GenDeclNode \<lparr>TokPos = TokPos parent, Tok = Tok parent,
                      Specs = [ValueSpec \<lparr>Names = [name], ValueType = Some abbreviated,
                                           Values = []\<rparr>]\<rparr>)
       (GenDecl_Pos parent - 1) pos"

definition typePlaceholder :: "SymbolFilter \<Rightarrow> genDecl \<Rightarrow> typeSpec \<Rightarrow> Pos \<Rightarrow> commentGroup" where
  "typePlaceholder sf parent node pos =
     placeholder sf
       (GenDeclNode \<lparr>TokPos = GenDecl_Pos parent, Tok = TYPE',
                      Specs = [TypeSpec \<lparr>TypeName = TypeName node, TypeExpr = abbreviated\<rparr>]\<rparr>)
       (GenDecl_Pos parent - 1) pos"

text \<open>
  The loop over \<^verbatim>\<open>node.Names\<close> of the \<^verbatim>\<open>ValueSpec\<close> case: the new slice of names, the
  counter \<^verbatim>\<open>remaining\<close> and the state.
\<close>

fun pruneNames ::
  "SymbolFilter \<Rightarrow> File \<Rightarrow> genDecl \<Rightarrow> ident list \<Rightarrow> int \<Rightarrow> pruneState \<Rightarrow>
     panic + (ident list \<times> int \<times> pruneState)" where
  "pruneNames sf f parent [] remaining st = Inr ([], remaining, st)"
| "pruneNames sf f parent (name # names) remaining st =
     (case key f (IdentNode name) of
        Inl p \<Rightarrow> Inl p
      | Inr k \<Rightarrow>
          (case map_of (WillPrune sf) k of
             Some pos \<Rightarrow>
               (let c = valuePlaceholder sf parent name pos;
                    st' = st\<lparr>comments := comments st @ [c], pruned := True\<rparr>
                in case pruneNames sf f parent names (remaining - 1) st' of
                     Inl p \<Rightarrow> Inl p
                   | Inr (names', r, st'') \<Rightarrow> Inr (NewIdent ''_'' # names', r, st''))
           | None \<Rightarrow>
               (case pruneNames sf f parent names remaining st of
                  Inl p \<Rightarrow> Inl p
                | Inr (names', r, st'') \<Rightarrow> Inr (name # names', r, st''))))"

text \<open>
  \<^verbatim>\<open>visitNode\<close> on a spec, a child of the \<^verbatim>\<open>GenDecl\<close> \<open>parent\<close>. \<open>None\<close> is
  \<^verbatim>\<open>c.Delete()\<close>: the spec leaves \<^verbatim>\<open>parent.Specs\<close> and the walk goes on with the next one.
\<close>

fun pruneSpec ::
  "SymbolFilter \<Rightarrow> File \<Rightarrow> genDecl \<Rightarrow> spec \<Rightarrow> pruneState \<Rightarrow> panic + (spec option \<times> pruneState)" where
  "pruneSpec sf f parent (ValueSpec node) st =
     (case pruneNames sf f parent (Names node) (int (length (Names node))) st of
        Inl p \<Rightarrow> Inl p
      | Inr (names', remaining, st') \<Rightarrow>
          (if remaining = 0 then Inr (None, st')
           else Inr (Some (ValueSpec (node\<lparr>Names := names'\<rparr>)), st')))"
| "pruneSpec sf f parent (TypeSpec node) st =
     (case key f (TypeSpecNode node) of
        Inl p \<Rightarrow> Inl p
      | Inr k \<Rightarrow>
          (case map_of (WillPrune sf) k of
             Some pos \<Rightarrow>
               (let c = typePlaceholder sf parent node pos
                in Inr (None, st\<lparr>comments := comments st @ [c], pruned := True\<rparr>))
           | None \<Rightarrow> Inr (Some (TypeSpec node), st)))"
| "pruneSpec sf f parent (ImportSpec node) st = Inr (Some (ImportSpec node), st)"

fun pruneSpecs ::
  "SymbolFilter \<Rightarrow> File \<Rightarrow> genDecl \<Rightarrow> spec list \<Rightarrow> pruneState \<Rightarrow> panic + (spec list \<times> pruneState)" where
  "pruneSpecs sf f parent [] st = Inr ([], st)"
| "pruneSpecs sf f parent (s # ss) st =
     (case pruneSpec sf f parent s st of
        Inl p \<Rightarrow> Inl p
      | Inr (r, st') \<Rightarrow>
          (case pruneSpecs sf f parent ss st' of
             Inl p \<Rightarrow> Inl p
           | Inr (rs, st'') \<Rightarrow> Inr ((case r of None \<Rightarrow> rs | Some s' \<Rightarrow> s' # rs), st'')))"

text \<open>
  A declaration, a child of the file: \<^verbatim>\<open>visitNode\<close> before its specs and, where
  \<^verbatim>\<open>visitNode\<close> returned true, \<^verbatim>\<open>pruneEmptyDecls\<close> after them. \<^verbatim>\<open>astutil.Apply\<close> skips the
  post-function of a node whose pre-function returned false.
\<close>

fun pruneDecl ::
  "SymbolFilter \<Rightarrow> File \<Rightarrow> decl \<Rightarrow> pruneState \<Rightarrow> panic + (decl option \<times> pruneState)" where
  "pruneDecl sf f (GenDecl d) st =
     (if Tok d \<noteq> IMPORT then
        (case pruneSpecs sf f d (Specs d) st of
           Inl p \<Rightarrow> Inl p
         | Inr (specs', st') \<Rightarrow>
             (if length specs' = 0 then Inr (None, st')
              else Inr (Some (GenDecl (d\<lparr>Specs := specs'\<rparr>)), st')))
      else Inr (Some (GenDecl d), st))"
| "pruneDecl sf f (FuncDecl node) st =
     (case key f (FuncDeclNode node) of
        Inl p \<Rightarrow> Inl p
      | Inr k \<Rightarrow>
          (case map_of (WillPrune sf) k of
             Some pos \<Rightarrow>
               (let c = funcPlaceholder sf node pos
                in Inr (None, st\<lparr>comments := comments st @ [c], pruned := True\<rparr>))
           | None \<Rightarrow> Inr (Some (FuncDecl node), st)))"

fun pruneDecls ::
  "SymbolFilter \<Rightarrow> File \<Rightarrow> decl list \<Rightarrow> pruneState \<Rightarrow> panic + (decl list \<times> pruneState)" where
  "pruneDecls sf f [] st = Inr ([], st)"
| "pruneDecls sf f (d # ds) st =
     (case pruneDecl sf f d st of
        Inl p \<Rightarrow> Inl p
      | Inr (r, st') \<Rightarrow>
          (case pruneDecls sf f ds st' of
             Inl p \<Rightarrow> Inl p
           | Inr (rs, st'') \<Rightarrow> Inr ((case r of None \<Rightarrow> rs | Some d' \<Rightarrow> d' # rs), st'')))"

definition Prune :: "SymbolFilter \<Rightarrow> File \<Rightarrow> panic + (File \<times> bool)" where
  "Prune sf f =
     (if IsEmpty sf then Inr (f, False)
      else
        (case pruneDecls sf f (Decls f) \<lparr>comments = Comments f, pruned = False\<rparr> of
           Inl p \<Rightarrow> Inl p
         | Inr (decls', st) \<Rightarrow> Inr (f\<lparr>Decls := decls', Comments := comments st\<rparr>, pruned st)))"

section \<open>Transformers\<close>

text \<open>
  \<^verbatim>\<open>astTransformer\<close>: a function on the file set and the tree that changes the tree in place
  and returns whether it did. Here it returns the new tree with the flag, or the panic.
\<close>

type_synonym astTransformer = "FileSet \<Rightarrow> File \<Rightarrow> panic + (File \<times> bool)"

text \<open>
  \<^verbatim>\<open>chain\<close>: \<^verbatim>\<open>modified := left(fset, f); modified = modified || right(fset, f)\<close>. Go
  evaluates the right operand of \<^verbatim>\<open>||\<close> only when the left one is false.
\<close>

definition chain :: "astTransformer \<Rightarrow> astTransformer \<Rightarrow> astTransformer" where
  "chain left right = (\<lambda>fset f.
     case left fset f of
       Inl p \<Rightarrow> Inl p
     | Inr (f1, modified) \<Rightarrow>
         (if modified then Inr (f1, modified)
          else (case right fset f1 of
                  Inl p \<Rightarrow> Inl p
                | Inr (f2, modified2) \<Rightarrow> Inr (f2, modified2))))"

definition identity :: astTransformer where
  "identity fset f = Inr (f, False)"

text \<open>
  What the specification says of chaining, for comparison: both transformers run, the
  second on the output of the first, and the flags are combined.
\<close>

definition chain_spec :: "astTransformer \<Rightarrow> astTransformer \<Rightarrow> astTransformer" where
  "chain_spec left right = (\<lambda>fset f.
     case left fset f of
       Inl p \<Rightarrow> Inl p
     | Inr (f1, changed1) \<Rightarrow>
         (case right fset f1 of
            Inl p \<Rightarrow> Inl p
          | Inr (f2, changed2) \<Rightarrow> Inr (f2, changed1 \<or> changed2)))"

section \<open>Import redirection\<close>

definition doubleQuote :: char where
  "doubleQuote = CHR 0x22"

text \<open>The literal assigned to \<^verbatim>\<open>spec.Path.Value\<close>, quotes included.\<close>

definition nosyncPath :: string where
  "nosyncPath = doubleQuote # ''github.com/gopherjs/gopherjs/nosync'' @ [doubleQuote]"

text \<open>
  The body of the loop of \<^verbatim>\<open>nosync\<close> on one import spec. \<open>unquote\<close> is \<^verbatim>\<open>strconv.Unquote\<close>
  with its error dropped, as the code drops it.
\<close>

definition nosyncImport :: "(string \<Rightarrow> string) \<Rightarrow> importSpec \<Rightarrow> bool \<Rightarrow> importSpec \<times> bool" where
  "nosyncImport unquote spec modified =
     (let path = unquote (Path spec) in
      if path = ''sync'' then
        (spec\<lparr>ImportName := (if ImportName spec = None then Some (NewIdent ''sync'')
                              else ImportName spec),
              Path := nosyncPath\<rparr>, True)
      else (spec, modified))"

fun nosyncSpecs :: "(string \<Rightarrow> string) \<Rightarrow> spec list \<Rightarrow> bool \<Rightarrow> spec list \<times> bool" where
  "nosyncSpecs unquote [] modified = ([], modified)"
| "nosyncSpecs unquote (ImportSpec s # ss) modified =
     (let (s', modified') = nosyncImport unquote s modified;
          (ss', modified'') = nosyncSpecs unquote ss modified'
      in (ImportSpec s' # ss', modified''))"
| "nosyncSpecs unquote (s # ss) modified =
     (let (ss', modified') = nosyncSpecs unquote ss modified in (s # ss', modified'))"

fun nosyncDecls :: "(string \<Rightarrow> string) \<Rightarrow> decl list \<Rightarrow> bool \<Rightarrow> decl list \<times> bool" where
  "nosyncDecls unquote [] modified = ([], modified)"
| "nosyncDecls unquote (GenDecl d # ds) modified =
     (if Tok d = IMPORT then
        (let (specs', modified') = nosyncSpecs unquote (Specs d) modified;
             (ds', modified'') = nosyncDecls unquote ds modified'
         in (GenDecl (d\<lparr>Specs := specs'\<rparr>) # ds', modified''))
      else
        (let (ds', modified') = nosyncDecls unquote ds modified
         in (GenDecl d # ds', modified')))"
| "nosyncDecls unquote (FuncDecl d # ds) modified =
     (let (ds', modified') = nosyncDecls unquote ds modified in (FuncDecl d # ds', modified'))"

definition nosync :: "(string \<Rightarrow> string) \<Rightarrow> astTransformer" where
  "nosync unquote fset f =
     (let (decls', modified) = nosyncDecls unquote (Decls f) False
      in Inr (f\<lparr>Decls := decls'\<rparr>, modified))"

text \<open>\<^verbatim>\<open>f.Imports\<close>: the import specs of the import declarations, in source order.\<close>

fun importSpecs :: "spec list \<Rightarrow> importSpec list" where
  "importSpecs [] = []"
| "importSpecs (ImportSpec s # ss) = s # importSpecs ss"
| "importSpecs (s # ss) = importSpecs ss"

fun Imports_of :: "decl list \<Rightarrow> importSpec list" where
  "Imports_of [] = []"
| "Imports_of (GenDecl d # ds) =
     (if Tok d = IMPORT then importSpecs (Specs d) @ Imports_of ds else Imports_of ds)"
| "Imports_of (FuncDecl d # ds) = Imports_of ds"

definition Imports :: "File \<Rightarrow> importSpec list" where
  "Imports f = Imports_of (Decls f)"

section \<open>The pipeline driver\<close>

text \<open>
  The operating system's files: regular files with their bytes and symbolic links with
  their target, under absolute paths. Directories and permissions are left out.
  \<^verbatim>\<open>os.Stat\<close>, \<^verbatim>\<open>os.Open\<close> and \<^verbatim>\<open>os.Create\<close> follow links, at most \<open>maxSymlinks\<close> of them;
  \<^verbatim>\<open>os.Symlink\<close> looks at the path itself.
\<close>

datatype entry = Regular string | Symlink string

type_synonym os = "string \<rightharpoonup> entry"

datatype errno = ENOENT | EEXIST | ELOOP

datatype error =
    OsError errno
  | ParseError string
  | FormatError string
  | AlreadyExists string
  | FailedToLoad string error
  | FailedToWrite string error
  | FailedToOpenSource error
  | FailedToOpenDestination error

definition maxSymlinks :: nat where
  "maxSymlinks = 40"

fun resolve :: "nat \<Rightarrow> os \<Rightarrow> string \<Rightarrow> string option" where
  "resolve 0 fs p = None"
| "resolve (Suc n) fs p =
     (case fs p of
        Some (Symlink t) \<Rightarrow> resolve n fs t
      | _ \<Rightarrow> Some p)"

definition osStat :: "os \<Rightarrow> string \<Rightarrow> errno option" where
  "osStat fs p =
     (case resolve maxSymlinks fs p of
        None \<Rightarrow> Some ELOOP
      | Some q \<Rightarrow> (case fs q of None \<Rightarrow> Some ENOENT | Some _ \<Rightarrow> None))"

definition IsNotExist :: "errno option \<Rightarrow> bool" where
  "IsNotExist err = (err = Some ENOENT)"

definition osOpen :: "os \<Rightarrow> string \<Rightarrow> errno + string" where
  "osOpen fs p =
     (case resolve maxSymlinks fs p of
        None \<Rightarrow> Inl ELOOP
      | Some q \<Rightarrow>
          (case fs q of
             Some (Regular content) \<Rightarrow> Inr content
           | Some (Symlink _) \<Rightarrow> Inl ELOOP
           | None \<Rightarrow> Inl ENOENT))"

text \<open>
  \<^verbatim>\<open>os.Create\<close> opens with \<^verbatim>\<open>O_RDWR|O_CREATE|O_TRUNC\<close>: an existing file is emptied. The
  result is the path of the file that is written and the new state.
\<close>

definition osCreate :: "os \<Rightarrow> string \<Rightarrow> errno + (string \<times> os)" where
  "osCreate fs p =
     (case resolve maxSymlinks fs p of
        None \<Rightarrow> Inl ELOOP
      | Some q \<Rightarrow> Inr (q, fs(q \<mapsto> Regular [])))"

definition osSymlink :: "os \<Rightarrow> string \<Rightarrow> string \<Rightarrow> errno + os" where
  "osSymlink fs oldname newname =
     (if fs newname \<noteq> None then Inl EEXIST
      else Inr (fs(newname \<mapsto> Symlink oldname)))"

text \<open>
  An \<^verbatim>\<open>http.FileSystem\<close>: \<^verbatim>\<open>http.Dir\<close> over the operating system's files, or any other
  implementation, given by the content it opens under each name.
\<close>

datatype fileSystem = Dir string | OtherFS "string \<rightharpoonup> string"

text \<open>
  Library functions that the driver calls and whose code is outside the repository:
  \<^verbatim>\<open>parser.ParseFile\<close> (file name, source), \<^verbatim>\<open>format.Node\<close> on a file (the bytes written
  and the error, if any), \<^verbatim>\<open>filepath.Join\<close>, \<^verbatim>\<open>filepath.Base\<close> and the path that
  \<^verbatim>\<open>http.Dir.Open\<close> opens for a root and a name.
\<close>

record library =
  ParseFile :: "string \<Rightarrow> string \<Rightarrow> error + File"
  FormatFile :: "File \<Rightarrow> string \<times> error option"
  Join :: "string \<Rightarrow> string \<Rightarrow> string"
  Base :: "string \<Rightarrow> string"
  DirName :: "string \<Rightarrow> string \<Rightarrow> string"

definition fsOpen :: "library \<Rightarrow> fileSystem \<Rightarrow> os \<Rightarrow> string \<Rightarrow> errno + string" where
  "fsOpen lib loadFS fs name =
     (case loadFS of
        Dir root \<Rightarrow> osOpen fs (DirName lib root name)
      | OtherFS files \<Rightarrow> (case files name of None \<Rightarrow> Inl ENOENT | Some content \<Rightarrow> Inr content))"

definition loadAST :: "library \<Rightarrow> fileSystem \<Rightarrow> os \<Rightarrow> string \<Rightarrow> string \<Rightarrow> error + File" where
  "loadAST lib loadFS fs loadPath writePath =
     (case fsOpen lib loadFS fs loadPath of
        Inl e \<Rightarrow> Inl (OsError e)
      | Inr src \<Rightarrow> ParseFile lib (Base lib writePath) src)"

text \<open>
  \<^verbatim>\<open>writeAST\<close>. The deferred \<^verbatim>\<open>Flush\<close> and \<^verbatim>\<open>Close\<close> run also when \<^verbatim>\<open>format.Node\<close> fails,
  so the bytes it produced are in the file either way.
\<close>

definition writeAST :: "library \<Rightarrow> string \<Rightarrow> File \<Rightarrow> os \<Rightarrow> error option \<times> os" where
  "writeAST lib path source fs =
     (if \<not> IsNotExist (osStat fs path) then (Some (AlreadyExists path), fs)
      else
        (case osCreate fs path of
           Inl e \<Rightarrow> (Some (OsError e), fs)
         | Inr (q, fs') \<Rightarrow>
             (let (bytes, err) = FormatFile lib source in (err, fs'(q \<mapsto> Regular bytes)))))"

definition copyUnmodified :: "library \<Rightarrow> fileSystem \<Rightarrow> string \<Rightarrow> string \<Rightarrow> os \<Rightarrow> error option \<times> os" where
  "copyUnmodified lib loadFS loadPath writePath fs =
     (case loadFS of
        Dir realFS \<Rightarrow>
          (case osSymlink fs (Join lib realFS loadPath) writePath of
             Inl e \<Rightarrow> (Some (OsError e), fs)
           | Inr fs' \<Rightarrow> (None, fs'))
      | OtherFS files \<Rightarrow>
          (case fsOpen lib loadFS fs loadPath of
             Inl e \<Rightarrow> (Some (FailedToOpenSource (OsError e)), fs)
           | Inr content \<Rightarrow>
               (case osCreate fs writePath of
                  Inl e \<Rightarrow> (Some (FailedToOpenDestination (OsError e)), fs)
                | Inr (q, fs') \<Rightarrow> (None, fs'(q \<mapsto> Regular content)))))"

text \<open>
  \<^verbatim>\<open>processSource\<close>; the method \<^verbatim>\<open>SymbolFilter.processSource\<close> has the same body with the
  filter's file set.
\<close>

definition processSource ::
  "library \<Rightarrow> FileSet \<Rightarrow> fileSystem \<Rightarrow> string \<Rightarrow> string \<Rightarrow> astTransformer \<Rightarrow> os \<Rightarrow>
     panic + (error option \<times> os)" where
  "processSource lib fset loadFS loadPath writePath transform fs =
     (case loadAST lib loadFS fs loadPath writePath of
        Inl err \<Rightarrow> Inr (Some (FailedToLoad loadPath err), fs)
      | Inr source \<Rightarrow>
          (case transform fset source of
             Inl p \<Rightarrow> Inl p
           | Inr (source', modified) \<Rightarrow>
               (if \<not> modified then Inr (copyUnmodified lib loadFS loadPath writePath fs)
                else
                  (case writeAST lib writePath source' fs of
                     (Some err, fs') \<Rightarrow> Inr (Some (FailedToWrite writePath err), fs')
                   | (None, fs') \<Rightarrow> Inr (None, fs')))))"

section \<open>Notions used in the statements\<close>

text \<open>The lookup \<^verbatim>\<open>sf.WillPrune[sf.key(f, n)]\<close>: the stored position, if the key is there.\<close>

definition replacement :: "SymbolFilter \<Rightarrow> File \<Rightarrow> node \<Rightarrow> Pos option" where
  "replacement sf f n =
     (case key f n of
        Inl p \<Rightarrow> None
      | Inr k \<Rightarrow> map_of (WillPrune sf) k)"

definition matches :: "SymbolFilter \<Rightarrow> File \<Rightarrow> node \<Rightarrow> bool" where
  "matches sf f n = (replacement sf f n \<noteq> None)"

text \<open>A name of a value spec after the loop: the blank identifier where it matched.\<close>

definition blanked :: "SymbolFilter \<Rightarrow> File \<Rightarrow> ident \<Rightarrow> ident" where
  "blanked sf f name = (if matches sf f (IdentNode name) then NewIdent ''_'' else name)"

text \<open>A spec all of whose declared names match the table.\<close>

fun whollyMatched :: "SymbolFilter \<Rightarrow> File \<Rightarrow> spec \<Rightarrow> bool" where
  "whollyMatched sf f (ValueSpec s) = list_all (\<lambda>n. matches sf f (IdentNode n)) (Names s)"
| "whollyMatched sf f (TypeSpec s) = matches sf f (TypeSpecNode s)"
| "whollyMatched sf f (ImportSpec s) = False"

text \<open>The placeholder comments of the matched members of a spec, in order.\<close>

fun namePlaceholders :: "SymbolFilter \<Rightarrow> File \<Rightarrow> genDecl \<Rightarrow> ident list \<Rightarrow> commentGroup list" where
  "namePlaceholders sf f parent [] = []"
| "namePlaceholders sf f parent (n # ns) =
     (case replacement sf f (IdentNode n) of
        None \<Rightarrow> namePlaceholders sf f parent ns
      | Some pos \<Rightarrow> valuePlaceholder sf parent n pos # namePlaceholders sf f parent ns)"

fun memberPlaceholders :: "SymbolFilter \<Rightarrow> File \<Rightarrow> genDecl \<Rightarrow> spec \<Rightarrow> commentGroup list" where
  "memberPlaceholders sf f parent (ValueSpec s) = namePlaceholders sf f parent (Names s)"
| "memberPlaceholders sf f parent (TypeSpec s) =
     (case replacement sf f (TypeSpecNode s) of
        None \<Rightarrow> []
      | Some pos \<Rightarrow> [typePlaceholder sf parent s pos])"
| "memberPlaceholders sf f parent (ImportSpec s) = []"

text \<open>What the walk leaves of a spec, and whether it changed anything on the way.\<close>

fun specAfter :: "SymbolFilter \<Rightarrow> File \<Rightarrow> spec \<Rightarrow> spec option" where
  "specAfter sf f (ValueSpec s) =
     (if list_all (\<lambda>n. matches sf f (IdentNode n)) (Names s) then None
      else Some (ValueSpec (s\<lparr>Names := map (blanked sf f) (Names s)\<rparr>)))"
| "specAfter sf f (TypeSpec s) =
     (if matches sf f (TypeSpecNode s) then None else Some (TypeSpec s))"
| "specAfter sf f (ImportSpec s) = Some (ImportSpec s)"

fun specTouched :: "SymbolFilter \<Rightarrow> File \<Rightarrow> spec \<Rightarrow> bool" where
  "specTouched sf f (ValueSpec s) = list_ex (\<lambda>n. matches sf f (IdentNode n)) (Names s)"
| "specTouched sf f (TypeSpec s) = matches sf f (TypeSpecNode s)"
| "specTouched sf f (ImportSpec s) = False"

text \<open>
  A method whose receiver type, after one pointer is taken off, is not an identifier: a
  generic receiver \<^verbatim>\<open>T[P]\<close>, a parenthesised or a qualified type.
\<close>

definition oddReceiver :: "funcDecl \<Rightarrow> bool" where
  "oddReceiver d =
     (case Recv d of
        None \<Rightarrow> False
      | Some [] \<Rightarrow> False
      | Some (f # _) \<Rightarrow>
          (case FieldType f of
             IdentExpr _ \<Rightarrow> False
           | StarExpr (IdentExpr _) \<Rightarrow> False
           | _ \<Rightarrow> True))"

definition declPanics :: "decl \<Rightarrow> bool" where
  "declPanics d = (case d of GenDecl g \<Rightarrow> False | FuncDecl node \<Rightarrow> oddReceiver node)"

text \<open>The same three readings for a declaration.\<close>

fun declAfter :: "SymbolFilter \<Rightarrow> File \<Rightarrow> decl \<Rightarrow> decl option" where
  "declAfter sf f (GenDecl d) =
     (if Tok d \<noteq> IMPORT then
        (if List.map_filter (specAfter sf f) (Specs d) = [] then None
         else Some (GenDecl (d\<lparr>Specs := List.map_filter (specAfter sf f) (Specs d)\<rparr>)))
      else Some (GenDecl d))"
| "declAfter sf f (FuncDecl node) =
     (if matches sf f (FuncDeclNode node) then None else Some (FuncDecl node))"

fun declPlaceholders :: "SymbolFilter \<Rightarrow> File \<Rightarrow> decl \<Rightarrow> commentGroup list" where
  "declPlaceholders sf f (GenDecl d) =
     (if Tok d \<noteq> IMPORT then concat (map (memberPlaceholders sf f d) (Specs d)) else [])"
| "declPlaceholders sf f (FuncDecl node) =
     (case replacement sf f (FuncDeclNode node) of
        None \<Rightarrow> []
      | Some pos \<Rightarrow> [funcPlaceholder sf node pos])"

fun declTouched :: "SymbolFilter \<Rightarrow> File \<Rightarrow> decl \<Rightarrow> bool" where
  "declTouched sf f (GenDecl d) = (Tok d \<noteq> IMPORT \<and> list_ex (specTouched sf f) (Specs d))"
| "declTouched sf f (FuncDecl node) = matches sf f (FuncDeclNode node)"

text \<open>The keys of the symbols that a spec and a declaration declare.\<close>

fun specKeys :: "File \<Rightarrow> spec \<Rightarrow> string list" where
  "specKeys f (ValueSpec s) = map (\<lambda>n. Name (PackageName f) @ ''.'' @ Name n) (Names s)"
| "specKeys f (TypeSpec s) = [Name (PackageName f) @ ''.'' @ Name (TypeName s)]"
| "specKeys f (ImportSpec s) = []"

fun declKeys :: "File \<Rightarrow> decl \<Rightarrow> string list" where
  "declKeys f (GenDecl d) =
     (if Tok d \<noteq> IMPORT then concat (map (specKeys f) (Specs d)) else [])"
| "declKeys f (FuncDecl node) =
     (case key f (FuncDeclNode node) of Inl p \<Rightarrow> [] | Inr k \<Rightarrow> [k])"

definition isImportDecl :: "decl \<Rightarrow> bool" where
  "isImportDecl d = (case d of GenDecl g \<Rightarrow> Tok g = IMPORT | FuncDecl _ \<Rightarrow> False)"

text \<open>The text that the specification gives for a placeholder comment.\<close>

definition placeholder_spec :: "string \<Rightarrow> string \<Rightarrow> string \<Rightarrow> string" where
  "placeholder_spec K N P =
     ''// '' @ K @ '' '' @ N @ '' '' @ emDash @ '' GopherJS replacement at '' @ P"

section \<open>Example inputs\<close>

text \<open>
  The file set of the tests: one file \<^verbatim>\<open>example.go\<close> with base 1 and a single line, so
  that position 11 is \<^verbatim>\<open>example.go:1:11\<close>.
\<close>

definition exampleFileSet :: FileSet where
  "exampleFileSet p = \<lparr>Filename = ''example.go'', Offset = p - 1, Line = 1, Column = p\<rparr>"

definition exampleFilter :: "string list \<Rightarrow> SymbolFilter" where
  "exampleFilter names = \<lparr>FileSet = Some exampleFileSet, WillPrune = map (\<lambda>n. (n, 11)) names\<rparr>"

definition exampleFunc :: "Pos \<Rightarrow> string \<Rightarrow> funcDecl" where
  "exampleFunc p name =
     \<lparr>Recv = None, FuncName = Ident (p + 5) name, FuncTyp = FuncType p [] [],
      Body = Some (BlockStmt ''{}'')\<rparr>"

definition exampleMethod :: "Pos \<Rightarrow> expr \<Rightarrow> string \<Rightarrow> funcDecl" where
  "exampleMethod p recv name =
     \<lparr>Recv = Some [FieldNode [] recv], FuncName = Ident (p + 9) name, FuncTyp = FuncType p [] [],
      Body = Some (BlockStmt ''{}'')\<rparr>"

definition exampleFile :: "decl list \<Rightarrow> File" where
  "exampleFile ds = \<lparr>PackageName = Ident 9 ''x'', Decls = ds, Comments = []\<rparr>"

text \<open>\<^verbatim>\<open>var V1, V2 = F()\<close> at position 50.\<close>

definition multiVar :: valueSpec where
  "multiVar =
     \<lparr>Names = [Ident 54 ''V1'', Ident 58 ''V2''], ValueType = None,
      Values = [CallExpr (IdentExpr (Ident 63 ''F'')) []]\<rparr>"

definition multiVarDecl :: genDecl where
  "multiVarDecl = \<lparr>TokPos = 50, Tok = VAR, Specs = [ValueSpec multiVar]\<rparr>"

text \<open>\<^verbatim>\<open>type (T1 int; T2 bool)\<close> at position 11.\<close>

definition typeGroup :: genDecl where
  "typeGroup =
     \<lparr>TokPos = 11, Tok = TYPE',
      Specs = [TypeSpec \<lparr>TypeName = Ident 17 ''T1'', TypeExpr = IdentExpr (Ident 20 ''int'')\<rparr>,
               TypeSpec \<lparr>TypeName = Ident 25 ''T2'', TypeExpr = IdentExpr (Ident 28 ''bool'')\<rparr>]\<rparr>"

definition importDecl :: "importSpec list \<Rightarrow> decl" where
  "importDecl specs = GenDecl \<lparr>TokPos = 11, Tok = IMPORT, Specs = map ImportSpec specs\<rparr>"

definition quoted :: "string \<Rightarrow> string" where
  "quoted s = doubleQuote # s @ [doubleQuote]"

text \<open>
  \<^verbatim>\<open>strconv.Unquote\<close> on a double-quoted literal without escapes, which is all that the
  examples need; anything else gives the empty string here.
\<close>

definition unquotePlain :: "string \<Rightarrow> string" where
  "unquotePlain s =
     (if 2 \<le> length s \<and> hd s = doubleQuote \<and> last s = doubleQuote
         \<and> doubleQuote \<notin> set (butlast (tl s)) \<and> CHR 0x5C \<notin> set (butlast (tl s))
         \<and> newline \<notin> set (butlast (tl s))
      then butlast (tl s) else [])"

text \<open>\<^verbatim>\<open>package x; import ("foo/bar"; "sync"); func Func() {}\<close>.\<close>

definition importingFile :: File where
  "importingFile =
     exampleFile
       [importDecl [\<lparr>ImportName = None, Path = quoted ''foo/bar''\<rparr>,
                    \<lparr>ImportName = None, Path = quoted ''sync''\<rparr>],
        FuncDecl (exampleFunc 40 ''Func'')]"

text \<open>A method with the generic receiver \<^verbatim>\<open>T[P]\<close>.\<close>

definition genericMethod :: funcDecl where
  "genericMethod =
     exampleMethod 11 (IndexExpr (IdentExpr (Ident 17 ''T'')) (IdentExpr (Ident 19 ''P''))) ''M''"

text \<open>A library for the examples: every source parses to the same one-function file.\<close>

definition exampleLibrary :: library where
  "exampleLibrary =
     \<lparr>ParseFile = (\<lambda>name src. Inr (exampleFile [FuncDecl (exampleFunc 11 ''Func'')])),
      FormatFile = (\<lambda>f. (''package '' @ Name (PackageName f), None)),
      Join = (\<lambda>dir name. dir @ ''/'' @ name),
      Base = (\<lambda>path. path),
      DirName = (\<lambda>dir name. dir @ ''/'' @ name)\<rparr>"

section \<open>The walk as a function of each node\<close>

text \<open>
  The state-passing walk computes, node by node, what the functions \<open>specAfter\<close>,
  \<open>declAfter\<close> and their companions describe.
\<close>

lemma key_IdentNode: "key f (IdentNode n) = Inr (Name (PackageName f) @ ''.'' @ Name n)"
  by (simp add: key_def)

lemma key_TypeSpecNode: "key f (TypeSpecNode s) = Inr (Name (PackageName f) @ ''.'' @ Name (TypeName s))"
  by (simp add: key_def)

lemma replacement_IdentNode:
  "replacement sf f (IdentNode n) = map_of (WillPrune sf) (Name (PackageName f) @ ''.'' @ Name n)"
  by (simp add: replacement_def key_IdentNode)

lemma replacement_TypeSpecNode:
  "replacement sf f (TypeSpecNode s) = map_of (WillPrune sf) (Name (PackageName f) @ ''.'' @ Name (TypeName s))"
  by (simp add: replacement_def key_TypeSpecNode)

lemma pruneNames_eq:
  "pruneNames sf f parent names remaining st =
     Inr (map (blanked sf f) names,
          remaining - int (length (filter (\<lambda>n. matches sf f (IdentNode n)) names)),
          st\<lparr>comments := comments st @ namePlaceholders sf f parent names,
             pruned := pruned st \<or> list_ex (\<lambda>n. matches sf f (IdentNode n)) names\<rparr>)"
proof (induction names arbitrary: remaining st)
  case Nil
  then show ?case by simp
next
  case (Cons n ns)
  show ?case
  proof (cases "replacement sf f (IdentNode n)")
    case None
    then have m: "\<not> matches sf f (IdentNode n)" by (simp add: matches_def)
    from None have "map_of (WillPrune sf) (Name (PackageName f) @ ''.'' @ Name n) = None"
      by (simp add: replacement_IdentNode)
    then show ?thesis using None m
      by (simp add: key_IdentNode Cons.IH blanked_def)
  next
    case (Some pos)
    then have m: "matches sf f (IdentNode n)" by (simp add: matches_def)
    from Some have "map_of (WillPrune sf) (Name (PackageName f) @ ''.'' @ Name n) = Some pos"
      by (simp add: replacement_IdentNode)
    then show ?thesis using Some m
      by (simp add: key_IdentNode Cons.IH blanked_def Let_def)
  qed
qed

lemma length_filter_eq_iff:
  "(length xs = length (filter P xs)) = list_all P xs"
proof (induction xs)
  case Nil
  then show ?case by simp
next
  case (Cons x xs)
  have le: "length (filter P xs) \<le> length xs" by (rule length_filter_le)
  show ?case
  proof (cases "P x")
    case True
    then show ?thesis using Cons by simp
  next
    case False
    then show ?thesis using le by (simp add: less_Suc_eq_le [symmetric] del: length_filter_le)
  qed
qed

lemma pruneSpec_eq:
  "pruneSpec sf f parent s st =
     Inr (specAfter sf f s,
          st\<lparr>comments := comments st @ memberPlaceholders sf f parent s,
             pruned := pruned st \<or> specTouched sf f s\<rparr>)"
proof (cases s)
  case (ImportSpec i)
  then show ?thesis by simp
next
  case (ValueSpec v)
  then show ?thesis
    by (simp add: pruneNames_eq length_filter_eq_iff)
next
  case (TypeSpec t)
  show ?thesis
  proof (cases "replacement sf f (TypeSpecNode t)")
    case None
    then have "map_of (WillPrune sf) (Name (PackageName f) @ ''.'' @ Name (TypeName t)) = None"
      by (simp add: replacement_TypeSpecNode)
    then show ?thesis using None TypeSpec
      by (simp add: key_TypeSpecNode matches_def)
  next
    case (Some pos)
    then have "map_of (WillPrune sf) (Name (PackageName f) @ ''.'' @ Name (TypeName t)) = Some pos"
      by (simp add: replacement_TypeSpecNode)
    then show ?thesis using Some TypeSpec
      by (simp add: key_TypeSpecNode matches_def)
  qed
qed

lemma pruneSpecs_eq:
  "pruneSpecs sf f parent ss st =
     Inr (List.map_filter (specAfter sf f) ss,
          st\<lparr>comments := comments st @ concat (map (memberPlaceholders sf f parent) ss),
             pruned := pruned st \<or> list_ex (specTouched sf f) ss\<rparr>)"
proof (induction ss arbitrary: st)
  case Nil
  then show ?case by simp
next
  case (Cons s ss)
  show ?case
    by (cases "specAfter sf f s") (simp_all add: pruneSpec_eq Cons.IH)
qed


lemma funcName_odd: "oddReceiver d \<Longrightarrow> funcName d = Inl InterfaceConversion"
  by (auto simp: oddReceiver_def funcName_def split: option.splits list.splits expr.splits)

lemma funcName_plain: "\<not> oddReceiver d \<Longrightarrow> \<exists>n. funcName d = Inr n"
  by (auto simp: oddReceiver_def funcName_def split: option.splits list.splits expr.splits)

lemma key_FuncDeclNode_odd: "oddReceiver d \<Longrightarrow> key f (FuncDeclNode d) = Inl InterfaceConversion"
  by (simp add: key_def funcName_odd)

lemma key_FuncDeclNode_plain: "\<not> oddReceiver d \<Longrightarrow> \<exists>k. key f (FuncDeclNode d) = Inr k"
  using funcName_plain [of d] by (auto simp: key_def)

lemma pruneDecl_eq:
  "pruneDecl sf f d st =
     (if declPanics d then Inl InterfaceConversion
      else Inr (declAfter sf f d,
                st\<lparr>comments := comments st @ declPlaceholders sf f d,
                   pruned := pruned st \<or> declTouched sf f d\<rparr>))"
proof (cases d)
  case (GenDecl g)
  then show ?thesis
    by (simp add: declPanics_def pruneSpecs_eq)
next
  case (FuncDecl node)
  show ?thesis
  proof (cases "oddReceiver node")
    case True
    then show ?thesis using FuncDecl
      by (simp add: declPanics_def key_FuncDeclNode_odd)
  next
    case False
    then obtain k where k: "key f (FuncDeclNode node) = Inr k"
      using key_FuncDeclNode_plain by blast
    then have r: "replacement sf f (FuncDeclNode node) = map_of (WillPrune sf) k"
      by (simp add: replacement_def)
    show ?thesis
    proof (cases "map_of (WillPrune sf) k")
      case None
      then show ?thesis using False FuncDecl k r
        by (simp add: declPanics_def matches_def)
    next
      case (Some pos)
      then show ?thesis using False FuncDecl k r
        by (simp add: declPanics_def matches_def)
    qed
  qed
qed

lemma pruneDecls_eq:
  "pruneDecls sf f ds st =
     (if list_ex declPanics ds then Inl InterfaceConversion
      else Inr (List.map_filter (declAfter sf f) ds,
                st\<lparr>comments := comments st @ concat (map (declPlaceholders sf f) ds),
                   pruned := pruned st \<or> list_ex (declTouched sf f) ds\<rparr>))"
proof (induction ds arbitrary: st)
  case Nil
  then show ?case by simp
next
  case (Cons d ds)
  show ?case
    by (cases "declAfter sf f d") (simp_all add: pruneDecl_eq Cons.IH)
qed

lemma Prune_eq:
  "Prune sf f =
     (if IsEmpty sf then Inr (f, False)
      else if list_ex declPanics (Decls f) then Inl InterfaceConversion
      else Inr (f\<lparr>Decls := List.map_filter (declAfter sf f) (Decls f),
                  Comments := Comments f @ concat (map (declPlaceholders sf f) (Decls f))\<rparr>,
                list_ex (declTouched sf f) (Decls f)))"
  by (simp add: Prune_def pruneDecls_eq)


lemma keys_collectNames:
  "\<exists>t'. collectNames f names t = Inr t' \<and>
        fst ` set t' = fst ` set t \<union> set (map (\<lambda>n. Name (PackageName f) @ ''.'' @ Name n) names)"
proof (induction names arbitrary: t)
  case Nil
  then show ?case by simp
next
  case (Cons n ns)
  obtain t' where
    "collectNames f ns (AList.update (Name (PackageName f) @ ''.'' @ Name n) (NamePos n) t) = Inr t'"
    "fst ` set t' = fst ` set (AList.update (Name (PackageName f) @ ''.'' @ Name n) (NamePos n) t)
        \<union> set (map (\<lambda>n. Name (PackageName f) @ ''.'' @ Name n) ns)"
    using Cons.IH by blast
  then show ?case
    by (auto simp: key_IdentNode dom_update)
qed

lemma keys_collectSpec:
  "\<exists>t'. collectSpec f s t = Inr t' \<and> fst ` set t' = fst ` set t \<union> set (specKeys f s)"
proof (cases s)
  case (ImportSpec i)
  then show ?thesis by simp
next
  case (ValueSpec v)
  then show ?thesis using keys_collectNames [of f "Names v" t] by simp
next
  case (TypeSpec ts)
  then show ?thesis by (auto simp: key_TypeSpecNode dom_update)
qed

lemma keys_collectSpecs:
  "\<exists>t'. collectSpecs f ss t = Inr t' \<and>
        fst ` set t' = fst ` set t \<union> set (concat (map (specKeys f) ss))"
proof (induction ss arbitrary: t)
  case Nil
  then show ?case by simp
next
  case (Cons s ss)
  obtain t1 where t1: "collectSpec f s t = Inr t1" "fst ` set t1 = fst ` set t \<union> set (specKeys f s)"
    using keys_collectSpec by blast
  obtain t2 where t2: "collectSpecs f ss t1 = Inr t2"
      "fst ` set t2 = fst ` set t1 \<union> set (concat (map (specKeys f) ss))"
    using Cons.IH by blast
  show ?case using t1 t2 by auto
qed

lemma collectDecl_eq:
  "collectDecl f d t =
     (if declPanics d then Inl InterfaceConversion
      else Inr (projr (collectDecl f d t)))
   \<and> (\<not> declPanics d \<longrightarrow>
        fst ` set (projr (collectDecl f d t)) = fst ` set t \<union> set (declKeys f d))"
proof (cases d)
  case (GenDecl g)
  obtain t' where "collectSpecs f (Specs g) t = Inr t'"
      "fst ` set t' = fst ` set t \<union> set (concat (map (specKeys f) (Specs g)))"
    using keys_collectSpecs by blast
  then show ?thesis using GenDecl by (auto simp: declPanics_def)
next
  case (FuncDecl node)
  show ?thesis
  proof (cases "oddReceiver node")
    case True
    then show ?thesis using FuncDecl by (simp add: declPanics_def key_FuncDeclNode_odd)
  next
    case False
    then obtain k where "key f (FuncDeclNode node) = Inr k"
      using key_FuncDeclNode_plain by blast
    then show ?thesis using False FuncDecl by (simp add: declPanics_def dom_update)
  qed
qed

lemma collectDecls_eq:
  "collectDecls f ds t =
     (if list_ex declPanics ds then Inl InterfaceConversion
      else Inr (projr (collectDecls f ds t)))
   \<and> (\<not> list_ex declPanics ds \<longrightarrow>
        fst ` set (projr (collectDecls f ds t)) = fst ` set t \<union> set (concat (map (declKeys f) ds)))"
proof (induction ds arbitrary: t)
  case Nil
  then show ?case by simp
next
  case (Cons d ds)
  show ?case
  proof (cases "declPanics d")
    case True
    then show ?thesis using collectDecl_eq [of f d t] by simp
  next
    case False
    then obtain t1 where t1: "collectDecl f d t = Inr t1"
        "fst ` set t1 = fst ` set t \<union> set (declKeys f d)"
      using collectDecl_eq [of f d t] by auto
    show ?thesis using False t1 Cons.IH [of t1] by auto
  qed
qed

lemma touched_names_iff:
  "list_ex (\<lambda>n. matches sf f (IdentNode n)) names =
     (\<exists>k \<in> set (map (\<lambda>n. Name (PackageName f) @ ''.'' @ Name n) names). k \<in> fst ` set (WillPrune sf))"
  by (induction names) (auto simp: matches_def replacement_IdentNode map_of_eq_None_iff)

lemma specTouched_iff:
  "specTouched sf f s = (\<exists>k \<in> set (specKeys f s). k \<in> fst ` set (WillPrune sf))"
proof (cases s)
  case (ImportSpec i)
  then show ?thesis by simp
next
  case (ValueSpec v)
  then show ?thesis using touched_names_iff [of sf f "Names v"] by simp
next
  case (TypeSpec ts)
  then show ?thesis by (simp add: matches_def replacement_TypeSpecNode map_of_eq_None_iff)
qed

lemma declTouched_iff:
  "\<not> declPanics d \<Longrightarrow>
     declTouched sf f d = (\<exists>k \<in> set (declKeys f d). k \<in> fst ` set (WillPrune sf))"
proof (cases d)
  case (GenDecl g)
  then show ?thesis by (auto simp: list_ex_iff specTouched_iff)
next
  case (FuncDecl node)
  assume "\<not> declPanics d"
  then have "\<not> oddReceiver node" using FuncDecl by (simp add: declPanics_def)
  then obtain k where "key f (FuncDeclNode node) = Inr k"
    using key_FuncDeclNode_plain by blast
  then show ?thesis using FuncDecl
    by (simp add: matches_def replacement_def map_of_eq_None_iff)
qed

section \<open>Symbol keys of methods\<close>

text \<open>
  Claim C7. A method with receiver \<^verbatim>\<open>T\<close> and a method of the same name with receiver
  \<^verbatim>\<open>*T\<close> have the same key \<^verbatim>\<open>pkg.T.M\<close>: \<^verbatim>\<open>Collect\<close> enters both under it, and
  \<^verbatim>\<open>Prune\<close> deletes either exactly when the table holds it.
\<close>

theorem method_key_unwraps_pointer_receiver:
  assumes "Recv d1 = Some (FieldNode ns1 (IdentExpr t1) # rs1)"
    and "Recv d2 = Some (FieldNode ns2 (StarExpr (IdentExpr t2)) # rs2)"
    and "Name t1 = Name t2"
    and "Name (FuncName d1) = Name (FuncName d2)"
  shows "key f (FuncDeclNode d1) =
           Inr (Name (PackageName f) @ ''.'' @ Name t1 @ ''.'' @ Name (FuncName d1))
       \<and> key f (FuncDeclNode d2) = key f (FuncDeclNode d1)
       \<and> collectDecl f (FuncDecl d1) t =
           Inr (AList.update (Name (PackageName f) @ ''.'' @ Name t1 @ ''.'' @ Name (FuncName d1))
                  (FuncDecl_Pos d1) t)
       \<and> collectDecl f (FuncDecl d2) t =
           Inr (AList.update (Name (PackageName f) @ ''.'' @ Name t1 @ ''.'' @ Name (FuncName d1))
                  (FuncDecl_Pos d2) t)
       \<and> (\<exists>st'. pruneDecl sf f (FuncDecl d1) st = Inr (None, st')) =
           (Name (PackageName f) @ ''.'' @ Name t1 @ ''.'' @ Name (FuncName d1)
              \<in> fst ` set (WillPrune sf))
       \<and> (\<exists>st'. pruneDecl sf f (FuncDecl d2) st = Inr (None, st')) =
           (Name (PackageName f) @ ''.'' @ Name t1 @ ''.'' @ Name (FuncName d1)
              \<in> fst ` set (WillPrune sf))"
proof -
  let ?k = "Name (PackageName f) @ ''.'' @ Name t1 @ ''.'' @ Name (FuncName d1)"
  have k1: "key f (FuncDeclNode d1) = Inr ?k"
    using assms(1) by (simp add: key_def funcName_def)
  have k2: "key f (FuncDeclNode d2) = Inr ?k"
    using assms(2,3,4) by (simp add: key_def funcName_def)
  have mem: "(?k \<in> fst ` set (WillPrune sf)) = (map_of (WillPrune sf) ?k \<noteq> None)"
    by (simp add: map_of_eq_None_iff)
  have p1: "(\<exists>st'. pruneDecl sf f (FuncDecl d1) st = Inr (None, st')) = (?k \<in> fst ` set (WillPrune sf))"
    unfolding mem using k1 by (cases "map_of (WillPrune sf) ?k") auto
  have p2: "(\<exists>st'. pruneDecl sf f (FuncDecl d2) st = Inr (None, st')) = (?k \<in> fst ` set (WillPrune sf))"
    unfolding mem using k2 by (cases "map_of (WillPrune sf) ?k") auto
  show ?thesis using k1 k2 p1 p2 by simp
qed

theorem method_key_unwraps_pointer_receiver_witness:
  "key (exampleFile []) (FuncDeclNode (exampleMethod 11 (IdentExpr (Ident 17 ''T'')) ''M''))
     = Inr ''x.T.M''
   \<and> key (exampleFile [])
       (FuncDeclNode (exampleMethod 11 (StarExpr (IdentExpr (Ident 18 ''T''))) ''M''))
     = Inr ''x.T.M''
   \<and> collectDecl (exampleFile [])
       (FuncDecl (exampleMethod 11 (StarExpr (IdentExpr (Ident 18 ''T''))) ''M'')) []
     = Inr [(''x.T.M'', 11)]
   \<and> (\<exists>st'. pruneDecl (exampleFilter [''x.T.M'']) (exampleFile [])
         (FuncDecl (exampleMethod 11 (StarExpr (IdentExpr (Ident 18 ''T''))) ''M''))
         \<lparr>comments = [], pruned = False\<rparr> = Inr (None, st'))"
proof -
  have r1: "Recv (exampleMethod 11 (IdentExpr (Ident 17 ''T'')) ''M'')
              = Some (FieldNode [] (IdentExpr (Ident 17 ''T'')) # [])"
    by (simp add: exampleMethod_def)
  have r2: "Recv (exampleMethod 11 (StarExpr (IdentExpr (Ident 18 ''T''))) ''M'')
              = Some (FieldNode [] (StarExpr (IdentExpr (Ident 18 ''T''))) # [])"
    by (simp add: exampleMethod_def)
  have n: "Name (Ident 17 ''T'') = Name (Ident 18 ''T'')" by simp
  have m: "Name (FuncName (exampleMethod 11 (IdentExpr (Ident 17 ''T'')) ''M''))
             = Name (FuncName (exampleMethod 11 (StarExpr (IdentExpr (Ident 18 ''T''))) ''M''))"
    by (simp add: exampleMethod_def)
  show ?thesis
    using method_key_unwraps_pointer_receiver
      [OF r1 r2 n m, of "exampleFile []" "[]" "exampleFilter [''x.T.M'']"
         "\<lparr>comments = [], pruned = False\<rparr>"]
    by (simp add: exampleFile_def exampleMethod_def exampleFilter_def FuncDecl_Pos_def)
qed

lemma Collect'_eq:
  "Collect' sf f =
     (if list_ex declPanics (Decls f) then Inl InterfaceConversion
      else Inr (sf\<lparr>WillPrune := projr (collectDecls f (Decls f) (WillPrune sf))\<rparr>, False))"
proof (cases "list_ex declPanics (Decls f)")
  case True
  then have "collectDecls f (Decls f) (WillPrune sf) = Inl InterfaceConversion"
    using collectDecls_eq [of f "Decls f" "WillPrune sf"] by simp
  then show ?thesis using True by (simp add: Collect'_def)
next
  case False
  then have "collectDecls f (Decls f) (WillPrune sf)
               = Inr (projr (collectDecls f (Decls f) (WillPrune sf)))"
    using collectDecls_eq [of f "Decls f" "WillPrune sf"] by simp
  then obtain t where t: "collectDecls f (Decls f) (WillPrune sf) = Inr t" ..
  show ?thesis using False t by (simp add: Collect'_def)
qed

lemma odd_method_panics: "FuncDecl d \<in> set ds \<Longrightarrow> oddReceiver d \<Longrightarrow> list_ex declPanics ds"
  by (auto simp: list_ex_iff declPanics_def intro!: bexI [of _ "FuncDecl d"])

section \<open>Receivers that are not plain identifiers\<close>

text \<open>
  Claim C9, as amended. If a file declares a method whose receiver type is neither an
  identifier nor a pointer to an identifier, \<^verbatim>\<open>funcName\<close> panics on it, \<^verbatim>\<open>Collect\<close> panics
  on the file, and \<^verbatim>\<open>Prune\<close> panics on the file whenever its table is not empty. With an
  empty table \<^verbatim>\<open>Prune\<close> returns before the walk and gives the file back unchanged.
\<close>

theorem odd_receiver_panics:
  assumes "FuncDecl d \<in> set (Decls f)" and "oddReceiver d"
  shows "funcName d = Inl InterfaceConversion
       \<and> Collect' sf f = Inl InterfaceConversion
       \<and> (\<not> IsEmpty sf \<longrightarrow> Prune sf f = Inl InterfaceConversion)
       \<and> (IsEmpty sf \<longrightarrow> Prune sf f = Inr (f, False))"
proof -
  have p: "list_ex declPanics (Decls f)"
    using assms by (rule odd_method_panics)
  show ?thesis
    using p assms(2) by (simp add: funcName_odd Collect'_eq Prune_eq)
qed

text \<open>The theorem at the generic receiver \<^verbatim>\<open>func (T[P]) M()\<close>.\<close>

theorem odd_receiver_panics_witness:
  "FuncDecl genericMethod \<in> set (Decls (exampleFile [FuncDecl genericMethod]))
   \<and> oddReceiver genericMethod
   \<and> Collect' \<lparr>FileSet = None, WillPrune = []\<rparr> (exampleFile [FuncDecl genericMethod])
       = Inl InterfaceConversion
   \<and> \<not> IsEmpty (exampleFilter [''x.T.M''])
   \<and> Prune (exampleFilter [''x.T.M'']) (exampleFile [FuncDecl genericMethod])
       = Inl InterfaceConversion"
proof -
  have m: "FuncDecl genericMethod \<in> set (Decls (exampleFile [FuncDecl genericMethod]))"
    by (simp add: exampleFile_def)
  have o: "oddReceiver genericMethod"
    by (simp add: oddReceiver_def genericMethod_def exampleMethod_def)
  have n: "\<not> IsEmpty (exampleFilter [''x.T.M''])"
    by (simp add: IsEmpty_def exampleFilter_def)
  show ?thesis
    using m o n
      odd_receiver_panics [OF m o, of "\<lparr>FileSet = None, WillPrune = []\<rparr>"]
      odd_receiver_panics [OF m o, of "exampleFilter [''x.T.M'']"]
    by simp
qed

text \<open>
  The claim as first stated says that \<^verbatim>\<open>Prune\<close> panics on every such file. With the empty
  table it returns.
\<close>

theorem prune_empty_table_returns_on_odd_receiver:
  "oddReceiver genericMethod
   \<and> Prune \<lparr>FileSet = None, WillPrune = []\<rparr> (exampleFile [FuncDecl genericMethod])
       = Inr (exampleFile [FuncDecl genericMethod], False)"
  by (simp add: oddReceiver_def genericMethod_def exampleMethod_def Prune_def IsEmpty_def)

section \<open>Imports under Prune\<close>

lemma declAfter_import: "isImportDecl d \<Longrightarrow> declAfter sf f d = Some d"
  by (cases d) (simp_all add: isImportDecl_def)

lemma declAfter_other:
  "\<not> isImportDecl d \<Longrightarrow> declAfter sf f d = Some d' \<Longrightarrow> \<not> isImportDecl d'"
  by (cases d) (auto simp: isImportDecl_def split: if_splits)

lemma declPlaceholders_import: "isImportDecl d \<Longrightarrow> declPlaceholders sf f d = []"
  by (cases d) (simp_all add: isImportDecl_def)

lemma declTouched_import: "isImportDecl d \<Longrightarrow> \<not> declTouched sf f d"
  by (cases d) (simp_all add: isImportDecl_def)

lemma import_decls_kept:
  "filter isImportDecl (List.map_filter (declAfter sf f) ds) = filter isImportDecl ds"
proof (induction ds)
  case Nil
  then show ?case by simp
next
  case (Cons d ds)
  show ?case
  proof (cases "isImportDecl d")
    case True
    then show ?thesis using Cons by (simp add: declAfter_import)
  next
    case False
    then show ?thesis using Cons declAfter_other [OF False, of sf f]
      by (cases "declAfter sf f d") simp_all
  qed
qed

lemma Imports_of_filter: "Imports_of (filter isImportDecl ds) = Imports_of ds"
proof (induction ds)
  case Nil
  then show ?case by simp
next
  case (Cons d ds)
  then show ?case by (cases d) (simp_all add: isImportDecl_def)
qed

lemma placeholders_skip_imports:
  "concat (map (declPlaceholders sf f) (filter (\<lambda>d. \<not> isImportDecl d) ds))
     = concat (map (declPlaceholders sf f) ds)"
  by (induction ds) (simp_all add: declPlaceholders_import)

lemma touched_skip_imports:
  "list_ex (declTouched sf f) (filter (\<lambda>d. \<not> isImportDecl d) ds)
     = list_ex (declTouched sf f) ds"
  by (induction ds) (auto simp: declTouched_import)

text \<open>
  Claim C10. Whatever the table, \<^verbatim>\<open>Prune\<close> leaves the import declarations and their specs
  as they were, in the same order, and every placeholder comment it adds and the flag it
  returns come from the declarations that are not imports.
\<close>

theorem prune_leaves_imports:
  assumes "Prune sf f = Inr (f', changed)"
  shows "filter isImportDecl (Decls f') = filter isImportDecl (Decls f)
       \<and> Imports f' = Imports f
       \<and> (IsEmpty sf \<longrightarrow> Comments f' = Comments f \<and> \<not> changed)
       \<and> (\<not> IsEmpty sf \<longrightarrow>
            Comments f' = Comments f @
              concat (map (declPlaceholders sf f) (filter (\<lambda>d. \<not> isImportDecl d) (Decls f)))
            \<and> changed = list_ex (declTouched sf f) (filter (\<lambda>d. \<not> isImportDecl d) (Decls f)))"
proof (cases "IsEmpty sf")
  case True
  then show ?thesis using assms by (simp add: Prune_eq)
next
  case False
  have ok: "\<not> list_ex declPanics (Decls f)"
    using assms False by (auto simp: Prune_eq split: if_splits)
  have d: "Decls f' = List.map_filter (declAfter sf f) (Decls f)"
    and c: "Comments f' = Comments f @ concat (map (declPlaceholders sf f) (Decls f))"
    and ch: "changed = list_ex (declTouched sf f) (Decls f)"
    using assms False ok by (auto simp: Prune_eq)
  have i: "filter isImportDecl (Decls f') = filter isImportDecl (Decls f)"
    using d by (simp add: import_decls_kept)
  have "Imports_of (filter isImportDecl (Decls f')) = Imports_of (filter isImportDecl (Decls f))"
    using i by simp
  then have im: "Imports f' = Imports f"
    by (simp add: Imports_def Imports_of_filter)
  show ?thesis
    using False i im c ch by (simp add: placeholders_skip_imports touched_skip_imports)
qed

text \<open>
  The theorem on a file that imports \<^verbatim>\<open>sync\<close>, with a table that holds the key
  \<^verbatim>\<open>x.sync\<close>: the function goes, the imports stay.
\<close>

theorem prune_leaves_imports_witness:
  "Prune (exampleFilter [''x.Func'', ''x.sync'']) importingFile
     = Inr (importingFile
              \<lparr>Decls := [importDecl [\<lparr>ImportName = None, Path = quoted ''foo/bar''\<rparr>,
                                     \<lparr>ImportName = None, Path = quoted ''sync''\<rparr>]],
               Comments := [funcPlaceholder (exampleFilter [''x.Func'', ''x.sync''])
                              (exampleFunc 40 ''Func'') 11]\<rparr>, True)
   \<and> Imports (importingFile
              \<lparr>Decls := [importDecl [\<lparr>ImportName = None, Path = quoted ''foo/bar''\<rparr>,
                                     \<lparr>ImportName = None, Path = quoted ''sync''\<rparr>]],
               Comments := [funcPlaceholder (exampleFilter [''x.Func'', ''x.sync''])
                              (exampleFunc 40 ''Func'') 11]\<rparr>)
       = [\<lparr>ImportName = None, Path = quoted ''foo/bar''\<rparr>,
          \<lparr>ImportName = None, Path = quoted ''sync''\<rparr>]
   \<and> Imports importingFile
       = [\<lparr>ImportName = None, Path = quoted ''foo/bar''\<rparr>,
          \<lparr>ImportName = None, Path = quoted ''sync''\<rparr>]"
proof -
  have h: "Prune (exampleFilter [''x.Func'', ''x.sync'']) importingFile
     = Inr (importingFile
              \<lparr>Decls := [importDecl [\<lparr>ImportName = None, Path = quoted ''foo/bar''\<rparr>,
                                     \<lparr>ImportName = None, Path = quoted ''sync''\<rparr>]],
               Comments := [funcPlaceholder (exampleFilter [''x.Func'', ''x.sync''])
                              (exampleFunc 40 ''Func'') 11]\<rparr>, True)"
    by code_simp
  have i: "Imports importingFile
       = [\<lparr>ImportName = None, Path = quoted ''foo/bar''\<rparr>,
          \<lparr>ImportName = None, Path = quoted ''sync''\<rparr>]"
    by code_simp
  have c: "Imports (importingFile
              \<lparr>Decls := [importDecl [\<lparr>ImportName = None, Path = quoted ''foo/bar''\<rparr>,
                                     \<lparr>ImportName = None, Path = quoted ''sync''\<rparr>]],
               Comments := [funcPlaceholder (exampleFilter [''x.Func'', ''x.sync''])
                              (exampleFunc 40 ''Func'') 11]\<rparr>) = Imports importingFile"
    using prune_leaves_imports [OF h] by blast
  show ?thesis
    using h i c by simp
qed

section \<open>Declaration groups left empty\<close>

lemma key_package: "PackageName f1 = PackageName f2 \<Longrightarrow> key f1 n = key f2 n"
  by (cases n) (simp_all add: key_def split: sum.splits)

lemma matches_package: "PackageName f1 = PackageName f2 \<Longrightarrow> matches sf f1 n = matches sf f2 n"
  by (simp add: matches_def replacement_def key_package [of f1 f2])

lemma blanked_package: "PackageName f1 = PackageName f2 \<Longrightarrow> blanked sf f1 = blanked sf f2"
  by (rule ext) (simp add: blanked_def matches_package [of f1 f2])

lemma specAfter_package:
  "PackageName f1 = PackageName f2 \<Longrightarrow> specAfter sf f1 s = specAfter sf f2 s"
  by (cases s) (simp_all add: matches_package [of f1 f2] blanked_package [of f1 f2])

lemma declAfter_package:
  assumes "PackageName f1 = PackageName f2"
  shows "declAfter sf f1 d = declAfter sf f2 d"
proof -
  have "specAfter sf f1 = specAfter sf f2"
    using assms by (intro ext specAfter_package)
  then show ?thesis
    using assms by (cases d) (simp_all add: matches_package [of f1 f2])
qed

lemma whollyMatched_gone: "whollyMatched sf f s \<Longrightarrow> specAfter sf f s = None"
  by (cases s) simp_all

lemma wholly_matched_block:
  "list_all (whollyMatched sf f) ss \<Longrightarrow> List.map_filter (specAfter sf f) ss = []"
  by (induction ss) (simp_all add: whollyMatched_gone)

lemma namePlaceholders_count:
  "list_all (\<lambda>n. matches sf f (IdentNode n)) names \<Longrightarrow>
     length (namePlaceholders sf f parent names) = length names"
  by (induction names) (auto simp: matches_def)

lemma memberPlaceholders_count:
  "whollyMatched sf f s \<Longrightarrow> length (memberPlaceholders sf f parent s) = length (specKeys f s)"
  by (cases s) (auto simp: namePlaceholders_count matches_def)

lemma block_placeholders_count:
  "list_all (whollyMatched sf f) ss \<Longrightarrow>
     length (concat (map (memberPlaceholders sf f parent) ss)) = length (concat (map (specKeys f) ss))"
  by (induction ss) (simp_all add: memberPlaceholders_count)

lemma kept_groups_nonempty:
  "GenDecl g \<in> set (List.map_filter (declAfter sf f) ds) \<Longrightarrow> Tok g \<noteq> IMPORT \<Longrightarrow> Specs g \<noteq> []"
proof (induction ds)
  case Nil
  then show ?case by simp
next
  case (Cons d ds)
  show ?case
  proof (cases "declAfter sf f d = Some (GenDecl g)")
    case True
    then show ?thesis using Cons.prems(2)
      by (cases d) (auto split: if_splits)
  next
    case False
    then have "GenDecl g \<in> set (List.map_filter (declAfter sf f) ds)"
      using Cons.prems(1) by (cases "declAfter sf f d") auto
    then show ?thesis using Cons.IH Cons.prems(2) by simp
  qed
qed

text \<open>
  Claim C5. After a walk of \<^verbatim>\<open>Prune\<close> (the table is not empty), no \<^verbatim>\<open>var\<close>, \<^verbatim>\<open>const\<close> or
  \<^verbatim>\<open>type\<close> declaration of the tree is without specs. When every member of such a block
  matches the table, the resulting tree has the declarations it would have had if the
  block had not been in the file, and the comments added for the block are the
  placeholders of its members, one for each declared name.
\<close>

theorem emptied_groups_are_deleted:
  assumes "Prune sf f = Inr (f', changed)" and "\<not> IsEmpty sf"
  shows "(\<forall>g. GenDecl g \<in> set (Decls f') \<and> Tok g \<noteq> IMPORT \<longrightarrow> Specs g \<noteq> [])
       \<and> (\<forall>before g after.
            Decls f = before @ GenDecl g # after \<and> Tok g \<noteq> IMPORT
              \<and> list_all (whollyMatched sf f) (Specs g) \<longrightarrow>
            (\<exists>f'' changed''. Prune sf (f\<lparr>Decls := before @ after\<rparr>) = Inr (f'', changed'')
                \<and> Decls f' = Decls f'')
            \<and> Comments f' = Comments f
                 @ concat (map (declPlaceholders sf f) before)
                 @ concat (map (memberPlaceholders sf f g) (Specs g))
                 @ concat (map (declPlaceholders sf f) after)
            \<and> length (concat (map (memberPlaceholders sf f g) (Specs g)))
                 = length (declKeys f (GenDecl g)))"
proof -
  have ok: "\<not> list_ex declPanics (Decls f)"
    using assms by (auto simp: Prune_eq split: if_splits)
  have d: "Decls f' = List.map_filter (declAfter sf f) (Decls f)"
    and c: "Comments f' = Comments f @ concat (map (declPlaceholders sf f) (Decls f))"
    using assms ok by (auto simp: Prune_eq)
  have first: "\<forall>g. GenDecl g \<in> set (Decls f') \<and> Tok g \<noteq> IMPORT \<longrightarrow> Specs g \<noteq> []"
  proof (intro allI impI)
    fix g
    assume "GenDecl g \<in> set (Decls f') \<and> Tok g \<noteq> IMPORT"
    then show "Specs g \<noteq> []"
      using d kept_groups_nonempty [of g sf f "Decls f"] by simp
  qed
  have second: "\<forall>before g after.
            Decls f = before @ GenDecl g # after \<and> Tok g \<noteq> IMPORT
              \<and> list_all (whollyMatched sf f) (Specs g) \<longrightarrow>
            (\<exists>f'' changed''. Prune sf (f\<lparr>Decls := before @ after\<rparr>) = Inr (f'', changed'')
                \<and> Decls f' = Decls f'')
            \<and> Comments f' = Comments f
                 @ concat (map (declPlaceholders sf f) before)
                 @ concat (map (memberPlaceholders sf f g) (Specs g))
                 @ concat (map (declPlaceholders sf f) after)
            \<and> length (concat (map (memberPlaceholders sf f g) (Specs g)))
                 = length (declKeys f (GenDecl g))"
  proof (intro allI impI)
    fix before g after
    assume a: "Decls f = before @ GenDecl g # after \<and> Tok g \<noteq> IMPORT
              \<and> list_all (whollyMatched sf f) (Specs g)"
    then have split: "Decls f = before @ GenDecl g # after" and tok: "Tok g \<noteq> IMPORT"
      and all: "list_all (whollyMatched sf f) (Specs g)"
      by simp_all
    let ?f0 = "f\<lparr>Decls := before @ after\<rparr>"
    have gone: "declAfter sf f (GenDecl g) = None"
      using tok all by (simp add: wholly_matched_block)
    have ok0: "\<not> list_ex declPanics (before @ after)"
      using ok split by (simp add: list_ex_iff)
    have same: "declAfter sf ?f0 = declAfter sf f"
      by (rule ext) (simp add: declAfter_package [of ?f0 f])
    have d': "Decls f' = List.map_filter (declAfter sf f) before @ List.map_filter (declAfter sf f) after"
      using d split gone by (simp add: List.map_filter_def)
    have p0: "Prune sf ?f0 =
        Inr (?f0\<lparr>Decls := List.map_filter (declAfter sf ?f0) (before @ after),
                 Comments := Comments ?f0 @ concat (map (declPlaceholders sf ?f0) (before @ after))\<rparr>,
             list_ex (declTouched sf ?f0) (before @ after))"
      using assms(2) ok0 by (simp add: Prune_eq)
    have e: "Decls f' = Decls (?f0\<lparr>Decls := List.map_filter (declAfter sf ?f0) (before @ after),
                 Comments := Comments ?f0 @ concat (map (declPlaceholders sf ?f0) (before @ after))\<rparr>)"
      using d' same by (simp add: List.map_filter_def)
    have one: "\<exists>f'' changed''. Prune sf ?f0 = Inr (f'', changed'') \<and> Decls f' = Decls f''"
      using p0 e by (intro exI conjI)
    have two: "Comments f' = Comments f
                 @ concat (map (declPlaceholders sf f) before)
                 @ concat (map (memberPlaceholders sf f g) (Specs g))
                 @ concat (map (declPlaceholders sf f) after)"
      using c split tok by simp
    have three: "length (concat (map (memberPlaceholders sf f g) (Specs g)))
                 = length (declKeys f (GenDecl g))"
      using tok all by (simp add: block_placeholders_count)
    show "(\<exists>f'' changed''. Prune sf (f\<lparr>Decls := before @ after\<rparr>) = Inr (f'', changed'')
                \<and> Decls f' = Decls f'')
            \<and> Comments f' = Comments f
                 @ concat (map (declPlaceholders sf f) before)
                 @ concat (map (memberPlaceholders sf f g) (Specs g))
                 @ concat (map (declPlaceholders sf f) after)
            \<and> length (concat (map (memberPlaceholders sf f g) (Specs g)))
                 = length (declKeys f (GenDecl g))"
      using one two three by (intro conjI)
  qed
  show ?thesis using first second by (rule conjI)
qed

text \<open>The theorem on \<^verbatim>\<open>type (T1 int; T2 bool)\<close> with both names in the table.\<close>

theorem emptied_groups_are_deleted_witness:
  "Prune (exampleFilter [''x.T1'', ''x.T2'']) (exampleFile [GenDecl typeGroup])
     = Inr (exampleFile []
              \<lparr>Comments :=
                 [[\<lparr>Slash = 10, Text = ''// type T1 <abbreviated> '' @ emDash @
                                        '' GopherJS replacement at example.go:1:11''\<rparr>],
                  [\<lparr>Slash = 10, Text = ''// type T2 <abbreviated> '' @ emDash @
                                        '' GopherJS replacement at example.go:1:11''\<rparr>]]\<rparr>,
            True)
   \<and> \<not> IsEmpty (exampleFilter [''x.T1'', ''x.T2''])
   \<and> list_all (whollyMatched (exampleFilter [''x.T1'', ''x.T2''])
                 (exampleFile [GenDecl typeGroup])) (Specs typeGroup)
   \<and> length (concat (map (memberPlaceholders (exampleFilter [''x.T1'', ''x.T2''])
                             (exampleFile [GenDecl typeGroup]) typeGroup) (Specs typeGroup)))
       = 2"
proof -
  let ?sf = "exampleFilter [''x.T1'', ''x.T2'']"
  let ?f = "exampleFile [GenDecl typeGroup]"
  have h: "Prune ?sf ?f
     = Inr (exampleFile []
              \<lparr>Comments :=
                 [[\<lparr>Slash = 10, Text = ''// type T1 <abbreviated> '' @ emDash @
                                        '' GopherJS replacement at example.go:1:11''\<rparr>],
                  [\<lparr>Slash = 10, Text = ''// type T2 <abbreviated> '' @ emDash @
                                        '' GopherJS replacement at example.go:1:11''\<rparr>]]\<rparr>,
            True)"
    by code_simp
  have n: "\<not> IsEmpty ?sf"
    by code_simp
  have a: "list_all (whollyMatched ?sf ?f) (Specs typeGroup)"
    by code_simp
  have t: "Tok typeGroup \<noteq> IMPORT"
    by code_simp
  have s: "Decls ?f = [] @ GenDecl typeGroup # []"
    by (simp add: exampleFile_def)
  have k: "length (declKeys ?f (GenDecl typeGroup)) = 2"
    by code_simp
  have pre: "Decls ?f = [] @ GenDecl typeGroup # [] \<and> Tok typeGroup \<noteq> IMPORT
               \<and> list_all (whollyMatched ?sf ?f) (Specs typeGroup)"
    using s t a by (intro conjI)
  note c = emptied_groups_are_deleted
             [OF h n, THEN conjunct2, THEN spec, THEN spec, THEN spec, THEN mp, OF pre]
  have l: "length (concat (map (memberPlaceholders ?sf ?f typeGroup) (Specs typeGroup))) = 2"
    using c k by simp
  show ?thesis
    using h n a l by (intro conjI)
qed

section \<open>Value specs with several names\<close>

text \<open>
  Claim C3. On a value spec \<^verbatim>\<open>Prune\<close> looks up each name by itself and adds one
  placeholder for each name that matches. If some name does not match, the spec stays
  with as many names as before, at the same places, each matched one replaced by the
  blank identifier, and with its type and values untouched; if every name matches, the
  spec is deleted.
\<close>

theorem value_spec_keeps_arity:
  "\<exists>r st'. pruneSpec sf f parent (ValueSpec node) st = Inr (r, st')
     \<and> comments st' = comments st @ namePlaceholders sf f parent (Names node)
     \<and> length (namePlaceholders sf f parent (Names node))
         = length (filter (\<lambda>n. matches sf f (IdentNode n)) (Names node))
     \<and> (list_all (\<lambda>n. matches sf f (IdentNode n)) (Names node) \<longrightarrow> r = None)
     \<and> (\<not> list_all (\<lambda>n. matches sf f (IdentNode n)) (Names node) \<longrightarrow>
          (\<exists>names'. r = Some (ValueSpec (node\<lparr>Names := names'\<rparr>))
             \<and> length names' = length (Names node)
             \<and> (\<forall>i < length (Names node).
                   names' ! i = (if matches sf f (IdentNode (Names node ! i))
                                 then NewIdent ''_'' else Names node ! i))))"
proof -
  have cnt: "length (namePlaceholders sf f parent names)
         = length (filter (\<lambda>n. matches sf f (IdentNode n)) names)" for names
    by (induction names) (auto simp: matches_def)
  have nth: "\<forall>i < length (Names node).
       map (blanked sf f) (Names node) ! i
         = (if matches sf f (IdentNode (Names node ! i)) then NewIdent ''_'' else Names node ! i)"
    by (simp add: blanked_def)
  show ?thesis
  proof (cases "list_all (\<lambda>n. matches sf f (IdentNode n)) (Names node)")
    case True
    then show ?thesis
      by (simp add: pruneSpec_eq cnt)
  next
    case False
    have "\<exists>names'. Some (ValueSpec (node\<lparr>Names := map (blanked sf f) (Names node)\<rparr>))
                      = Some (ValueSpec (node\<lparr>Names := names'\<rparr>))
             \<and> length names' = length (Names node)
             \<and> (\<forall>i < length (Names node).
                   names' ! i = (if matches sf f (IdentNode (Names node ! i))
                                 then NewIdent ''_'' else Names node ! i))"
      using nth by (intro exI [of _ "map (blanked sf f) (Names node)"]) simp
    then show ?thesis using False
      by (simp add: pruneSpec_eq cnt)
  qed
qed

text \<open>
  The theorem on \<^verbatim>\<open>var V1, V2 = F()\<close> with only \<^verbatim>\<open>V1\<close> in the table, and \<^verbatim>\<open>Prune\<close> on
  the file with one and with both names in the table.
\<close>

theorem value_spec_keeps_arity_witness:
  "\<not> list_all (\<lambda>n. matches (exampleFilter [''x.V1'']) (exampleFile [GenDecl multiVarDecl]) (IdentNode n))
        (Names multiVar)
   \<and> pruneSpec (exampleFilter [''x.V1'']) (exampleFile [GenDecl multiVarDecl]) multiVarDecl
        (ValueSpec multiVar) \<lparr>comments = [], pruned = False\<rparr>
       = Inr (Some (ValueSpec (multiVar\<lparr>Names := [NewIdent ''_'', Ident 58 ''V2'']\<rparr>)),
              \<lparr>comments =
                 [[\<lparr>Slash = 49, Text = ''// var V1 <abbreviated> '' @ emDash @
                                        '' GopherJS replacement at example.go:1:11''\<rparr>]],
               pruned = True\<rparr>)
   \<and> length (namePlaceholders (exampleFilter [''x.V1'']) (exampleFile [GenDecl multiVarDecl])
                multiVarDecl (Names multiVar)) = 1
   \<and> Prune (exampleFilter [''x.V1'']) (exampleFile [GenDecl multiVarDecl])
       = Inr (exampleFile
                [GenDecl (multiVarDecl
                   \<lparr>Specs := [ValueSpec (multiVar\<lparr>Names := [NewIdent ''_'', Ident 58 ''V2'']\<rparr>)]\<rparr>)]
                \<lparr>Comments :=
                   [[\<lparr>Slash = 49, Text = ''// var V1 <abbreviated> '' @ emDash @
                                          '' GopherJS replacement at example.go:1:11''\<rparr>]]\<rparr>,
              True)
   \<and> Prune (exampleFilter [''x.V1'', ''x.V2'']) (exampleFile [GenDecl multiVarDecl])
       = Inr (exampleFile []
                \<lparr>Comments :=
                   [[\<lparr>Slash = 49, Text = ''// var V1 <abbreviated> '' @ emDash @
                                          '' GopherJS replacement at example.go:1:11''\<rparr>],
                    [\<lparr>Slash = 49, Text = ''// var V2 <abbreviated> '' @ emDash @
                                          '' GopherJS replacement at example.go:1:11''\<rparr>]]\<rparr>,
              True)"
proof -
  let ?sf = "exampleFilter [''x.V1'']"
  let ?f = "exampleFile [GenDecl multiVarDecl]"
  have m: "\<not> list_all (\<lambda>n. matches ?sf ?f (IdentNode n)) (Names multiVar)"
    by code_simp
  have h: "pruneSpec ?sf ?f multiVarDecl (ValueSpec multiVar) \<lparr>comments = [], pruned = False\<rparr>
       = Inr (Some (ValueSpec (multiVar\<lparr>Names := [NewIdent ''_'', Ident 58 ''V2'']\<rparr>)),
              \<lparr>comments =
                 [[\<lparr>Slash = 49, Text = ''// var V1 <abbreviated> '' @ emDash @
                                        '' GopherJS replacement at example.go:1:11''\<rparr>]],
               pruned = True\<rparr>)"
    by code_simp
  obtain r st' where
    e: "pruneSpec ?sf ?f multiVarDecl (ValueSpec multiVar) \<lparr>comments = [], pruned = False\<rparr>
          = Inr (r, st')"
    and c: "comments st' = comments \<lparr>comments = [], pruned = False\<rparr>
              @ namePlaceholders ?sf ?f multiVarDecl (Names multiVar)"
    using value_spec_keeps_arity
      [of ?sf ?f multiVarDecl multiVar "\<lparr>comments = [], pruned = False\<rparr>"]
    by blast
  have st: "st' = \<lparr>comments =
                 [[\<lparr>Slash = 49, Text = ''// var V1 <abbreviated> '' @ emDash @
                                        '' GopherJS replacement at example.go:1:11''\<rparr>]],
               pruned = True\<rparr>"
    using e h by simp
  have np: "namePlaceholders ?sf ?f multiVarDecl (Names multiVar) = comments st'"
    using c by simp
  have l: "length (namePlaceholders ?sf ?f multiVarDecl (Names multiVar)) = 1"
    unfolding np st by simp
  have p1: "Prune ?sf ?f
       = Inr (exampleFile
                [GenDecl (multiVarDecl
                   \<lparr>Specs := [ValueSpec (multiVar\<lparr>Names := [NewIdent ''_'', Ident 58 ''V2'']\<rparr>)]\<rparr>)]
                \<lparr>Comments :=
                   [[\<lparr>Slash = 49, Text = ''// var V1 <abbreviated> '' @ emDash @
                                          '' GopherJS replacement at example.go:1:11''\<rparr>]]\<rparr>,
              True)"
    by code_simp
  have p2: "Prune (exampleFilter [''x.V1'', ''x.V2'']) ?f
       = Inr (exampleFile []
                \<lparr>Comments :=
                   [[\<lparr>Slash = 49, Text = ''// var V1 <abbreviated> '' @ emDash @
                                          '' GopherJS replacement at example.go:1:11''\<rparr>],
                    [\<lparr>Slash = 49, Text = ''// var V2 <abbreviated> '' @ emDash @
                                          '' GopherJS replacement at example.go:1:11''\<rparr>]]\<rparr>,
              True)"
    by code_simp
  show ?thesis
    using m h l p1 p2 by (intro conjI)
qed

end
